theory Spec2Isabelle
  imports Main
begin

section \<open>The big integers of bn.js\<close>

text \<open>
  Both source files compute on \<^verbatim>\<open>BN\<close> values of the bn.js library: signed integers of
  arbitrary size. A \<^verbatim>\<open>BN\<close> is modelled as an \<^typ>\<open>int\<close>; \<^verbatim>\<open>add\<close>, \<^verbatim>\<open>sub\<close> and
  \<^verbatim>\<open>mul\<close> are the exact \<open>+\<close>, \<open>-\<close> and \<open>*\<close>. The amounts handed to the functions are
  taken as \<^verbatim>\<open>BN\<close> values already: \<^verbatim>\<open>new BN(x)\<close> of a \<^verbatim>\<open>BN\<close> is that \<^verbatim>\<open>BN\<close>, and of a
  decimal text it is the integer written there. The conversion of a JavaScript number,
  which asserts that the number is below \<open>2 ^ 53\<close>, is outside the model: every
  statement below is about integer amounts.

  Two operations of the library can throw, and both are used by the code:
  \<^item> \<^verbatim>\<open>div\<close> asserts that the divisor is not zero, and otherwise divides the absolute
    values and fixes the sign, so the quotient is truncated towards zero;
  \<^item> \<^verbatim>\<open>toNumber\<close> gives the value as a JavaScript number when the absolute value is
    below \<open>2 ^ 53\<close> (at most two 26-bit words, or three with the top word equal to 1),
    and otherwise fails with "Number can only safely store up to 53 bits".
\<close>

datatype error = DivisionByZero | NumberTooLarge

definition bn_div :: "int \<Rightarrow> int \<Rightarrow> error + int" where
  "bn_div x num =
     (if num = 0 then Inl DivisionByZero
      else if x < 0 \<and> \<not> num < 0 then Inr (- ((- x) div num))
      else if \<not> x < 0 \<and> num < 0 then Inr (- (x div (- num)))
      else if x < 0 \<and> num < 0 then Inr ((- x) div (- num))
      else Inr (x div num))"

definition toNumber :: "int \<Rightarrow> error + int" where
  "toNumber x = (if \<bar>x\<bar> < 2 ^ 53 then Inr x else Inl NumberTooLarge)"

text \<open>\<^verbatim>\<open>toString()\<close>: the decimal digits, after a minus sign for a negative value.\<close>

fun digits10 :: "nat \<Rightarrow> string" where
  "digits10 n =
     (if n < 10 then [''0123456789'' ! n]
      else digits10 (n div 10) @ [''0123456789'' ! (n mod 10)])"

definition toString :: "int \<Rightarrow> string" where
  "toString x = (if x < 0 then CHR ''-'' # digits10 (nat (- x)) else digits10 (nat x))"

section \<open>The console\<close>

text \<open>
  The functions print to the console while they compute. A run is modelled with the
  lines it has printed, in order, next to its outcome; a line is kept with the numbers
  it shows, and \<open>render\<close> gives its text.
\<close>

datatype log_line =
    LogIteration nat int int int
  | LogCp int
  | LogReturnAmount int
  | LogCommission int

fun render :: "log_line \<Rightarrow> string" where
  "render (LogIteration i x val derivVal) =
     ''iteration '' @ toString (int i) @ '', x = '' @ toString x @
     '', val = '' @ toString val @ '', derivVal = '' @ toString derivVal"
| "render (LogCp cp) = ''cp: '' @ toString cp"
| "render (LogReturnAmount r) = ''return amount: '' @ toString r"
| "render (LogCommission k) = ''commission amount: '' @ toString k"

type_synonym 'a run = "log_line list \<times> (error + 'a)"

section \<open>The equation\<close>

record Equation =
  a :: int
  b :: int
  c :: int

definition MAX_ITERATIONS :: nat where
  "MAX_ITERATIONS = 32"

text \<open>The constructor of the class: the coefficients from the four amounts.\<close>

definition new_Equation :: "int \<Rightarrow> int \<Rightarrow> int \<Rightarrow> int \<Rightarrow> error + Equation" where
  "new_Equation offer_user offer_pool ask_user ask_pool =
     (let a0 = ask_pool + ask_user;
          b1 = offer_pool * a0 * 2
      in case bn_div (ask_pool * (offer_pool + offer_user) * 30) 10000 of
           Inl e \<Rightarrow> Inl e
         | Inr b2 \<Rightarrow>
             Inr \<lparr> a = a0, b = b1 - b2,
                   c = offer_pool * (offer_pool * ask_user - offer_user * ask_pool) \<rparr>)"

definition computeValue :: "Equation \<Rightarrow> int \<Rightarrow> int" where
  "computeValue eq x = a eq * x * x + b eq * x + c eq"

definition computeDerivValue :: "Equation \<Rightarrow> int \<Rightarrow> int" where
  "computeDerivValue eq x = 2 * a eq * x + b eq"

text \<open>
  The loop of \<^verbatim>\<open>solve\<close>, with its variables \<^verbatim>\<open>i\<close>, \<^verbatim>\<open>xPrev\<close> and \<^verbatim>\<open>x\<close> and the lines
  printed so far. The quotient is taken first (it throws on a zero derivative), the
  line of the iteration is printed, and then the two \<^verbatim>\<open>toNumber\<close> calls of the
  comparison run, the one of \<^verbatim>\<open>x\<close> first.
\<close>

function solve_loop ::
  "Equation \<Rightarrow> nat \<Rightarrow> int \<Rightarrow> int \<Rightarrow> log_line list \<Rightarrow> int run" where
  "solve_loop eq i xPrev x out =
     (if i < MAX_ITERATIONS then
        (let val = computeValue eq x;
             derivVal = computeDerivValue eq x
         in case bn_div val derivVal of
              Inl e \<Rightarrow> (out, Inl e)
            | Inr q \<Rightarrow>
                (let x' = xPrev - q;
                     out' = out @ [LogIteration (i + 1) x' val derivVal]
                 in case toNumber x' of
                      Inl e \<Rightarrow> (out', Inl e)
                    | Inr n \<Rightarrow>
                        (case toNumber xPrev of
                           Inl e \<Rightarrow> (out', Inl e)
                         | Inr nPrev \<Rightarrow>
                             if n = nPrev then (out', Inr x')
                             else solve_loop eq (i + 1) x' x' out')))
      else (out, Inr x))"
  by pat_completeness auto
termination
  by (relation "measure (\<lambda>(eq, i, xPrev, x, out). MAX_ITERATIONS - i)") auto

declare solve_loop.simps [simp del]

definition solve :: "Equation \<Rightarrow> string run" where
  "solve eq =
     (case solve_loop eq 0 0 0 [] of
        (out, Inl e) \<Rightarrow> (out, Inl e)
      | (out, Inr x) \<Rightarrow> (out, Inr (toString x)))"

section \<open>The swap in a constant-product pool\<close>

definition DECIMAL_FRACTIONAL :: int where
  "DECIMAL_FRACTIONAL = 1000000000000000000"

definition computeXykSwapOutput :: "int \<Rightarrow> int \<Rightarrow> int \<Rightarrow> string run" where
  "computeXykSwapOutput offerAmount offerDepth askDepth =
     (let cp = offerDepth * askDepth;
          out1 = [LogCp cp];
          offerDepthAfter = offerDepth + offerAmount
      in case bn_div (cp * DECIMAL_FRACTIONAL) offerDepthAfter of
           Inl e \<Rightarrow> (out1, Inl e)
         | Inr askDepthAfter \<Rightarrow>
            (case bn_div (askDepth * DECIMAL_FRACTIONAL - askDepthAfter) DECIMAL_FRACTIONAL of
               Inl e \<Rightarrow> (out1, Inl e)
             | Inr returnAmount \<Rightarrow>
                (let out2 = out1 @ [LogReturnAmount returnAmount]
                 in case bn_div (returnAmount * 30) 10000 of
                      Inl e \<Rightarrow> (out2, Inl e)
                    | Inr commission \<Rightarrow>
                        (let out3 = out2 @ [LogCommission commission];
                             returnAmountAfterFee = returnAmount - commission
                         in (out3, Inr (toString returnAmountAfterFee))))))"

section \<open>The iteration as the specification words it\<close>

text \<open>
  For the comparison with \<open>solve\<close>: the specification's Newton step
  \<open>x\<^sub>n\<^sub>+\<^sub>1 = x\<^sub>n - value / derivative\<close> with \<open>value = a*x\<^sub>n\<^sup>2 + b*x\<^sub>n + c\<close>,
  \<open>derivative = 2*a*x\<^sub>n + b\<close> and a division that truncates towards zero, iterated
  from \<open>x\<^sub>0 = 0\<close>. These three definitions follow the specification, not the code.
\<close>

definition spec_trunc_div :: "int \<Rightarrow> int \<Rightarrow> int" where
  "spec_trunc_div v d = sgn v * sgn d * (\<bar>v\<bar> div \<bar>d\<bar>)"

definition spec_next :: "Equation \<Rightarrow> int \<Rightarrow> int" where
  "spec_next eq x =
     x - spec_trunc_div (a eq * x ^ 2 + b eq * x + c eq) (2 * a eq * x + b eq)"

definition spec_iterate :: "Equation \<Rightarrow> nat \<Rightarrow> int" where
  "spec_iterate eq n = (spec_next eq ^^ n) 0"

section \<open>The library operations, where they do not throw\<close>

lemma bn_div_zero: "bn_div x 0 = Inl DivisionByZero"
  by (simp add: bn_div_def)

lemma bn_div_trunc: "num \<noteq> 0 \<Longrightarrow> bn_div x num = Inr (spec_trunc_div x num)"
  by (auto simp: bn_div_def spec_trunc_div_def sgn_if)

lemma bn_div_nonneg: "0 \<le> x \<Longrightarrow> 0 < num \<Longrightarrow> bn_div x num = Inr (x div num)"
  by (simp add: bn_div_def)

lemma toString_0: "toString 0 = ''0''"
  by (simp add: toString_def)

text \<open>
  The decimal text determines the number: two \<^verbatim>\<open>BN\<close> values with the same
  \<^verbatim>\<open>toString()\<close> are equal.
\<close>

lemma digits10_small: "n < 10 \<Longrightarrow> digits10 n = [''0123456789'' ! n]"
  by simp

lemma digits10_large:
  "\<not> n < 10 \<Longrightarrow> digits10 n = digits10 (n div 10) @ [''0123456789'' ! (n mod 10)]"
  by (subst digits10.simps) simp

lemma digits10_nonempty: "digits10 n \<noteq> []"
  by (cases "n < 10") (simp_all add: digits10_small digits10_large del: digits10.simps)

lemma digit_inj:
  assumes "i < 10" "j < 10" "''0123456789'' ! i = ''0123456789'' ! j"
  shows "i = j"
proof -
  have "distinct ''0123456789''" by simp
  moreover have "i < length ''0123456789''" "j < length ''0123456789''"
    using assms by simp_all
  ultimately show ?thesis
    using assms(3) nth_eq_iff_index_eq by blast
qed

lemma digit_not_minus: "i < 10 \<Longrightarrow> ''0123456789'' ! i \<noteq> CHR ''-''"
proof -
  assume "i < 10"
  then have "''0123456789'' ! i \<in> set ''0123456789''"
    by (intro nth_mem) simp
  then show ?thesis by auto
qed

lemma digits10_no_minus: "CHR ''-'' \<notin> set (digits10 n)"
proof (induction n rule: digits10.induct)
  case (1 n)
  show ?case
  proof (cases "n < 10")
    case True
    then show ?thesis using digit_not_minus [of n] by (simp del: digits10.simps add: digits10_small)
  next
    case False
    then show ?thesis
      using 1 digit_not_minus [of "n mod 10"]
      by (simp del: digits10.simps add: digits10_large)
  qed
qed

lemma digits10_inj: "digits10 n = digits10 m \<Longrightarrow> n = m"
proof (induction n arbitrary: m rule: digits10.induct)
  case (1 n)
  show ?case
  proof (cases "n < 10")
    case n: True
    show ?thesis
    proof (cases "m < 10")
      case True
      with n "1.prems" show ?thesis
        by (simp del: digits10.simps add: digits10_small digit_inj)
    next
      case False
      with n "1.prems" digits10_nonempty [of "m div 10"] show ?thesis
        by (simp del: digits10.simps add: digits10_small digits10_large)
    qed
  next
    case n: False
    show ?thesis
    proof (cases "m < 10")
      case True
      with n "1.prems" digits10_nonempty [of "n div 10"] show ?thesis
        by (simp del: digits10.simps add: digits10_small digits10_large)
    next
      case False
      with n "1.prems" have e: "digits10 (n div 10) = digits10 (m div 10)"
        and d: "''0123456789'' ! (n mod 10) = ''0123456789'' ! (m mod 10)"
        by (simp_all del: digits10.simps add: digits10_large)
      from "1.IH" [OF n e] have "n div 10 = m div 10" .
      moreover from d have "n mod 10 = m mod 10"
        by (intro digit_inj) simp_all
      ultimately show ?thesis
        by (metis div_mult_mod_eq)
    qed
  qed
qed

lemma toString_inj: "toString x = toString y \<Longrightarrow> x = y"
proof -
  assume e: "toString x = toString y"
  have hd: "\<And>n. hd (digits10 n) \<noteq> CHR ''-''"
    using digits10_no_minus digits10_nonempty by (metis hd_in_set)
  show ?thesis
  proof (cases "x < 0")
    case x: True
    show ?thesis
    proof (cases "y < 0")
      case True
      with x e have "digits10 (nat (- x)) = digits10 (nat (- y))"
        by (simp add: toString_def)
      then have "nat (- x) = nat (- y)" by (rule digits10_inj)
      with x True show ?thesis by simp
    next
      case False
      with x e have "CHR ''-'' # digits10 (nat (- x)) = digits10 (nat y)"
        by (simp add: toString_def)
      then have "hd (digits10 (nat y)) = CHR ''-''" by (metis list.sel(1))
      with hd show ?thesis by blast
    qed
  next
    case x: False
    show ?thesis
    proof (cases "y < 0")
      case True
      with x e have "digits10 (nat x) = CHR ''-'' # digits10 (nat (- y))"
        by (simp add: toString_def)
      then have "hd (digits10 (nat x)) = CHR ''-''" by (metis list.sel(1))
      with hd show ?thesis by blast
    next
      case False
      with x e have "digits10 (nat x) = digits10 (nat y)"
        by (simp add: toString_def)
      then have "nat x = nat y" by (rule digits10_inj)
      with x False show ?thesis by simp
    qed
  qed
qed

lemma toNumber_small: "\<bar>x\<bar> < 2 ^ 53 \<Longrightarrow> toNumber x = Inr x"
  by (simp add: toNumber_def)

lemma toNumber_large: "2 ^ 53 \<le> \<bar>x\<bar> \<Longrightarrow> toNumber x = Inl NumberTooLarge"
  by (simp add: toNumber_def)

lemma computeValue_spec: "computeValue eq x = a eq * x ^ 2 + b eq * x + c eq"
  by (simp add: computeValue_def power2_eq_square mult.assoc)

lemma spec_next_code:
  "spec_next eq x = x - spec_trunc_div (computeValue eq x) (computeDerivValue eq x)"
  by (simp add: spec_next_def computeValue_spec computeDerivValue_def)

lemma spec_iterate_0: "spec_iterate eq 0 = 0"
  by (simp add: spec_iterate_def)

lemma spec_iterate_Suc: "spec_iterate eq (Suc n) = spec_next eq (spec_iterate eq n)"
  by (simp add: spec_iterate_def)

lemma solve_loop_done:
  "\<not> i < MAX_ITERATIONS \<Longrightarrow> solve_loop eq i xPrev x out = (out, Inr x)"
  by (subst solve_loop.simps) simp

lemma solve_loop_div0:
  "i < MAX_ITERATIONS \<Longrightarrow> computeDerivValue eq x = 0 \<Longrightarrow>
   solve_loop eq i xPrev x out = (out, Inl DivisionByZero)"
  by (subst solve_loop.simps) (simp add: bn_div_zero)

lemma solve_loop_step:
  assumes "i < MAX_ITERATIONS" "computeDerivValue eq x \<noteq> 0" "\<bar>x\<bar> < 2 ^ 53"
  shows "solve_loop eq i x x out =
     (let x' = spec_next eq x;
          out' = out @ [LogIteration (i + 1) x' (computeValue eq x) (computeDerivValue eq x)]
      in if 2 ^ 53 \<le> \<bar>x'\<bar> then (out', Inl NumberTooLarge)
         else if x' = x then (out', Inr x')
         else solve_loop eq (i + 1) x' x' out')"
  using assms
  by (subst solve_loop.simps)
     (simp add: bn_div_trunc spec_next_code toNumber_def Let_def)

section \<open>The coefficients\<close>

text \<open>
  The constructor on non-negative amounts: the dividend of its division is not
  negative, so the truncated quotient is the \<open>div\<close> of the integers.
\<close>

lemma new_Equation_nonneg:
  assumes "0 \<le> offerUser" "0 \<le> offerPool" "0 \<le> askUser" "0 \<le> askPool"
  shows "new_Equation offerUser offerPool askUser askPool =
           Inr \<lparr> a = askPool + askUser,
                 b = 2 * offerPool * (askPool + askUser)
                     - (askPool * (offerPool + offerUser) * 30) div 10000,
                 c = offerPool * (offerPool * askUser - offerUser * askPool) \<rparr>"
proof -
  have "0 \<le> askPool * (offerPool + offerUser) * 30"
    using assms by simp
  then have "bn_div (askPool * (offerPool + offerUser) * 30) 10000 =
             Inr ((askPool * (offerPool + offerUser) * 30) div 10000)"
    by (simp add: bn_div_nonneg)
  then show ?thesis
    by (simp add: new_Equation_def Let_def mult.commute mult.left_commute)
qed

text \<open>
  Claim C1. For non-negative amounts the constructor builds
  \<open>a = askPool + askUser\<close>,
  \<open>b = 2 * offerPool * a - (askPool * (offerPool + offerUser) * 30) div 10000\<close> and
  \<open>c = offerPool * (offerPool * askUser - offerUser * askPool)\<close>, in exact integer
  arithmetic.
\<close>

theorem new_Equation_coefficients:
  assumes "0 \<le> offerUser" "0 \<le> offerPool" "0 \<le> askUser" "0 \<le> askPool"
  shows "new_Equation offerUser offerPool askUser askPool =
           Inr \<lparr> a = askPool + askUser,
                 b = 2 * offerPool * (askPool + askUser)
                     - (askPool * (offerPool + offerUser) * 30) div 10000,
                 c = offerPool * (offerPool * askUser - offerUser * askPool) \<rparr>"
  using assms by (rule new_Equation_nonneg)

theorem new_Equation_coefficients_witness:
  "new_Equation 10000 1000000 0 1000000 =
     Inr \<lparr> a = 1000000, b = 1996970000000, c = - 10000000000000000 \<rparr>"
  using new_Equation_coefficients [of 10000 1000000 0 1000000] by simp

section \<open>The swap output\<close>

lemma askDepthAfter_le:
  fixes offerAmount offerDepth k :: int
  assumes "0 \<le> offerAmount" "0 < offerDepth" "0 \<le> k"
  shows "(offerDepth * k) div (offerDepth + offerAmount) \<le> k"
proof -
  have "(offerDepth * k) div (offerDepth + offerAmount) \<le> (offerDepth * k) div offerDepth"
    by (rule zdiv_mono2) (use assms in simp_all)
  also have "\<dots> = k" using assms by simp
  finally show ?thesis .
qed

text \<open>
  The whole run for a non-negative offer amount and positive reserves: the three lines
  printed and the text returned. Every dividend is non-negative there, so each
  truncating division of the library is \<open>div\<close>.
\<close>

lemma computeXykSwapOutput_run:
  assumes "0 \<le> offerAmount" "0 < offerDepth" "0 < askDepth"
  shows "computeXykSwapOutput offerAmount offerDepth askDepth =
       (let cp = offerDepth * askDepth;
            offerDepthAfter = offerDepth + offerAmount;
            askDepthAfter = (cp * 10 ^ 18) div offerDepthAfter;
            returnAmount = (askDepth * 10 ^ 18 - askDepthAfter) div 10 ^ 18;
            commission = (returnAmount * 30) div 10000
        in ([LogCp cp, LogReturnAmount returnAmount, LogCommission commission],
            Inr (toString (returnAmount - commission))))"
proof -
  let ?S = "1000000000000000000 :: int"
  let ?ada = "(offerDepth * askDepth * ?S) div (offerDepth + offerAmount)"
  let ?ra = "(askDepth * ?S - ?ada) div ?S"
  have d1: "bn_div (offerDepth * askDepth * ?S) (offerDepth + offerAmount) = Inr ?ada"
    using assms by (simp add: bn_div_nonneg)
  have "?ada \<le> askDepth * ?S"
    using askDepthAfter_le [OF assms(1,2), of "askDepth * ?S"] assms(3)
    by (simp add: mult.assoc)
  then have nn: "0 \<le> askDepth * ?S - ?ada" by simp
  then have d2: "bn_div (askDepth * ?S - ?ada) ?S = Inr ?ra"
    by (simp add: bn_div_nonneg)
  have "0 \<le> ?ra" using nn by (simp add: pos_imp_zdiv_nonneg_iff)
  then have d3: "bn_div (?ra * 30) 10000 = Inr ((?ra * 30) div 10000)"
    by (simp add: bn_div_nonneg)
  show ?thesis
    by (simp add: computeXykSwapOutput_def DECIMAL_FRACTIONAL_def Let_def d1 d2 d3)
qed

text \<open>
  Claim C4. For a non-negative offer amount and positive reserves the function returns
  \<open>returnAmount - commission\<close> (as decimal text), with \<open>cp = offerDepth * askDepth\<close>,
  \<open>offerDepthAfter = offerDepth + offerAmount\<close>,
  \<open>askDepthAfter = (cp * 10^18) div offerDepthAfter\<close>,
  \<open>returnAmount = (askDepth * 10^18 - askDepthAfter) div 10^18\<close> and
  \<open>commission = (returnAmount * 30) div 10000\<close>.
\<close>

theorem computeXykSwapOutput_value:
  assumes "0 \<le> offerAmount" "0 < offerDepth" "0 < askDepth"
  shows "snd (computeXykSwapOutput offerAmount offerDepth askDepth) =
     Inr (toString
       (let cp = offerDepth * askDepth;
            offerDepthAfter = offerDepth + offerAmount;
            askDepthAfter = (cp * 10 ^ 18) div offerDepthAfter;
            returnAmount = (askDepth * 10 ^ 18 - askDepthAfter) div 10 ^ 18;
            commission = (returnAmount * 30) div 10000
        in returnAmount - commission))"
  by (simp add: computeXykSwapOutput_run [OF assms] Let_def)

theorem computeXykSwapOutput_value_witness:
  "snd (computeXykSwapOutput 1000 1000000 1000000) = Inr ''997''"
  using computeXykSwapOutput_value [of 1000 1000000 1000000]
  by (simp add: toString_def)

text \<open>
  Claim C8. For fixed positive reserves the amount returned does not decrease when the
  offer amount grows: for \<open>0 \<le> offerAmount1 \<le> offerAmount2\<close> the two calls return the
  decimal texts of two integers \<open>r1 \<le> r2\<close>.
\<close>

lemma fee_mono:
  fixes r1 r2 :: int
  shows "r1 \<le> r2 \<Longrightarrow> r1 - (r1 * 30) div 10000 \<le> r2 - (r2 * 30) div 10000"
  by arith

lemma xyk_formula_mono:
  fixes offerDepth askDepth o1 o2 :: int
  assumes "0 < offerDepth" "0 < askDepth" "0 \<le> o1" "o1 \<le> o2"
  shows "(let cp = offerDepth * askDepth;
            offerDepthAfter = offerDepth + o1;
            askDepthAfter = (cp * 10 ^ 18) div offerDepthAfter;
            returnAmount = (askDepth * 10 ^ 18 - askDepthAfter) div 10 ^ 18;
            commission = (returnAmount * 30) div 10000
        in returnAmount - commission)
     \<le> (let cp = offerDepth * askDepth;
            offerDepthAfter = offerDepth + o2;
            askDepthAfter = (cp * 10 ^ 18) div offerDepthAfter;
            returnAmount = (askDepth * 10 ^ 18 - askDepthAfter) div 10 ^ 18;
            commission = (returnAmount * 30) div 10000
        in returnAmount - commission)"
proof -
  let ?S = "1000000000000000000 :: int"
  let ?n = "offerDepth * askDepth * ?S"
  have "0 \<le> ?n" using assms by simp
  then have "?n div (offerDepth + o2) \<le> ?n div (offerDepth + o1)"
    by (rule zdiv_mono2) (use assms in simp_all)
  then have "askDepth * ?S - ?n div (offerDepth + o1) \<le> askDepth * ?S - ?n div (offerDepth + o2)"
    by simp
  then have "(askDepth * ?S - ?n div (offerDepth + o1)) div ?S
           \<le> (askDepth * ?S - ?n div (offerDepth + o2)) div ?S"
    by (rule zdiv_mono1) simp
  then show ?thesis
    by (simp add: Let_def fee_mono)
qed

theorem computeXykSwapOutput_mono:
  assumes "0 < offerDepth" "0 < askDepth" "0 \<le> offerAmount1" "offerAmount1 \<le> offerAmount2"
  shows "\<exists>r1 r2. snd (computeXykSwapOutput offerAmount1 offerDepth askDepth) = Inr (toString r1) \<and>
                 snd (computeXykSwapOutput offerAmount2 offerDepth askDepth) = Inr (toString r2) \<and>
                 r1 \<le> r2"
proof -
  define f where "f = (\<lambda>offerAmount.
       (let cp = offerDepth * askDepth;
            offerDepthAfter = offerDepth + offerAmount;
            askDepthAfter = (cp * 10 ^ 18) div offerDepthAfter;
            returnAmount = (askDepth * 10 ^ 18 - askDepthAfter) div 10 ^ 18;
            commission = (returnAmount * 30) div 10000
        in returnAmount - commission))"
  have run: "snd (computeXykSwapOutput offerAmount offerDepth askDepth) = Inr (toString (f offerAmount))"
    if "0 \<le> offerAmount" for offerAmount
    unfolding f_def computeXykSwapOutput_run [OF that assms(1,2)] Let_def by (rule snd_conv)
  have "0 \<le> offerAmount2" using assms by simp
  moreover have "f offerAmount1 \<le> f offerAmount2"
    unfolding f_def by (rule xyk_formula_mono [OF assms])
  ultimately show ?thesis
    using run assms(3) by blast
qed

theorem computeXykSwapOutput_mono_witness:
  "\<exists>r1 r2. snd (computeXykSwapOutput 1000 1000000 1000000) = Inr (toString r1) \<and>
           snd (computeXykSwapOutput 2000 1000000 1000000) = Inr (toString r2) \<and>
           r1 \<le> r2"
  using computeXykSwapOutput_mono [of 1000000 1000000 1000 2000] by simp

section \<open>Reserves equal to zero\<close>

text \<open>
  Claim C5 says that both functions raise an invalid-reserve error, before any
  arithmetic, when a reserve is 0. Neither function examines its reserves: with
  \<open>offerPool = 0\<close>, and with \<open>askPool = 0\<close>, the constructor builds an equation and the
  swap function returns a text.
\<close>

theorem zero_reserve_not_rejected:
  "new_Equation 10 0 0 10 = Inr \<lparr> a = 10, b = 0, c = 0 \<rparr> \<and>
   computeXykSwapOutput 10 0 10 = ([LogCp 0, LogReturnAmount 10, LogCommission 0], Inr ''10'') \<and>
   new_Equation 10 10 0 0 = Inr \<lparr> a = 0, b = 0, c = 0 \<rparr> \<and>
   computeXykSwapOutput 10 10 0 = ([LogCp 0, LogReturnAmount 0, LogCommission 0], Inr ''0'')"
  by (simp add: new_Equation_def computeXykSwapOutput_def DECIMAL_FRACTIONAL_def bn_div_def
      toString_def Let_def)

lemma bn_div_cases: "bn_div x num = (if num = 0 then Inl DivisionByZero else Inr (spec_trunc_div x num))"
  by (simp add: bn_div_zero bn_div_trunc)

lemma spec_trunc_div_zero: "spec_trunc_div 0 d = 0"
  by (simp add: spec_trunc_div_def)

lemma spec_trunc_div_scaled: "spec_trunc_div (x * 1000000000000000000) 1000000000000000000 = x"
  by (simp add: spec_trunc_div_def abs_mult sgn_mult mult_sgn_abs)

text \<open>
  Claim C5, as the code has it, for integer amounts (\<^verbatim>\<open>BN\<close> values or decimal text; the
  conversion of a JavaScript number is not part of this statement). Neither function
  has a check of its reserves, and a reserve of 0 goes into the arithmetic like any
  other amount. With \<open>offerPool = 0\<close> the constructor builds \<open>a = askPool + askUser\<close>,
  \<open>b = - (askPool * offerUser * 30) / 10000\<close> (truncated) and \<open>c = 0\<close>; with
  \<open>askPool = 0\<close> it builds \<open>a = askUser\<close>, \<open>b = 2 * offerPool * askUser\<close> and
  \<open>c = offerPool * offerPool * askUser\<close>. With \<open>offerDepth = 0\<close> the swap function
  returns \<open>askDepth\<close> less its commission, and with \<open>askDepth = 0\<close> it returns 0; it
  fails only where \<open>offerDepth + offerAmount = 0\<close>, and there by the zero-divisor
  assertion of the library's division, after \<open>cp\<close> has been computed and printed.
\<close>

theorem zero_reserve_computed:
  "new_Equation offerUser 0 askUser askPool =
     Inr \<lparr> a = askPool + askUser,
           b = - spec_trunc_div (askPool * offerUser * 30) 10000,
           c = 0 \<rparr> \<and>
   new_Equation offerUser offerPool askUser 0 =
     Inr \<lparr> a = askUser, b = offerPool * askUser * 2, c = offerPool * (offerPool * askUser) \<rparr> \<and>
   computeXykSwapOutput offerAmount 0 askDepth =
     (if offerAmount = 0 then ([LogCp 0], Inl DivisionByZero)
      else ([LogCp 0, LogReturnAmount askDepth,
             LogCommission (spec_trunc_div (askDepth * 30) 10000)],
            Inr (toString (askDepth - spec_trunc_div (askDepth * 30) 10000)))) \<and>
   computeXykSwapOutput offerAmount offerDepth 0 =
     (if offerDepth + offerAmount = 0 then ([LogCp 0], Inl DivisionByZero)
      else ([LogCp 0, LogReturnAmount 0, LogCommission 0], Inr ''0''))"
  by (simp add: new_Equation_def computeXykSwapOutput_def DECIMAL_FRACTIONAL_def bn_div_cases
      spec_trunc_div_zero spec_trunc_div_scaled toString_0 Let_def)

section \<open>The loop of the solver\<close>

text \<open>
  Three inductions on the number of iterations left. The first compares the run with
  the specification's iteration, the second follows the size of the iterates printed,
  the third carries an invariant of the Newton step through the loop.
\<close>

lemma solve_loop_newton:
  fixes L :: "nat \<Rightarrow> log_line"
  assumes L: "\<And>k. L k = LogIteration (k + 1) (spec_iterate eq (k + 1))
                   (computeValue eq (spec_iterate eq k)) (computeDerivValue eq (spec_iterate eq k))"
  shows "n = MAX_ITERATIONS - i \<Longrightarrow> x = spec_iterate eq i \<Longrightarrow> \<bar>x\<bar> < 2 ^ 53 \<Longrightarrow>
         length out = i \<Longrightarrow> (\<forall>k<i. out ! k = L k) \<Longrightarrow>
         solve_loop eq i x x out = (out', r) \<Longrightarrow>
         length out' \<le> max i MAX_ITERATIONS \<and> i \<le> length out' \<and> (\<forall>k<length out'. out' ! k = L k) \<and>
         (\<forall>y. r = Inr y \<longrightarrow> y = spec_iterate eq (length out') \<and> (i < MAX_ITERATIONS \<longrightarrow> i < length out'))"
proof (induction n arbitrary: i x out)
  case 0
  then have "\<not> i < MAX_ITERATIONS" by simp
  with 0 have "out' = out" "r = Inr x" by (simp_all add: solve_loop_done)
  with 0 show ?case by simp
next
  case (Suc n)
  then have i: "i < MAX_ITERATIONS" by simp
  show ?case
  proof (cases "computeDerivValue eq x = 0")
    case True
    with Suc.prems(6) i have "out' = out" "r = Inl DivisionByZero"
      by (simp_all add: solve_loop_div0)
    with Suc.prems(4,5) i show ?thesis by simp
  next
    case False
    let ?x' = "spec_next eq x"
    let ?out' = "out @ [LogIteration (i + 1) ?x' (computeValue eq x) (computeDerivValue eq x)]"
    have x': "?x' = spec_iterate eq (Suc i)"
      using Suc.prems(2) by (simp add: spec_iterate_Suc)
    have line: "LogIteration (i + 1) ?x' (computeValue eq x) (computeDerivValue eq x) = L i"
      using Suc.prems(2) x' by (simp add: L)
    have len: "length ?out' = Suc i" using Suc.prems(4) by simp
    have lines: "\<forall>k<Suc i. ?out' ! k = L k"
      using Suc.prems(4,5) line by (auto simp: nth_append less_Suc_eq)
    have step: "solve_loop eq i x x out =
        (if 2 ^ 53 \<le> \<bar>?x'\<bar> then (?out', Inl NumberTooLarge)
         else if ?x' = x then (?out', Inr ?x')
         else solve_loop eq (i + 1) ?x' ?x' ?out')"
      using solve_loop_step [OF i False Suc.prems(3)] by (simp add: Let_def)
    show ?thesis
    proof (cases "2 ^ 53 \<le> \<bar>?x'\<bar>")
      case True
      with step Suc.prems(6) have "out' = ?out'" "r = Inl NumberTooLarge" by simp_all
      with len lines i show ?thesis by simp
    next
      case small: False
      show ?thesis
      proof (cases "?x' = x")
        case True
        with step small Suc.prems(6) have "out' = ?out'" "r = Inr ?x'" by simp_all
        with len lines i x' show ?thesis by simp
      next
        case False
        with step small Suc.prems(6)
        have rec: "solve_loop eq (Suc i) ?x' ?x' ?out' = (out', r)" by simp
        have "n = MAX_ITERATIONS - Suc i" using Suc.prems(1) by simp
        from Suc.IH [OF this x' _ len lines rec] small
        have "length out' \<le> max (Suc i) MAX_ITERATIONS \<and> Suc i \<le> length out' \<and>
              (\<forall>k<length out'. out' ! k = L k) \<and>
              (\<forall>y. r = Inr y \<longrightarrow> y = spec_iterate eq (length out'))"
          by simp
        with i show ?thesis by auto
      qed
    qed
  qed
qed




lemma solve_split:
  "solve eq = (out, r) \<Longrightarrow>
   \<exists>r0. solve_loop eq 0 0 0 [] = (out, r0) \<and> r = map_sum id toString r0"
  by (auto simp: solve_def split: prod.splits sum.splits)

lemma solve_loop_large:
  fixes S :: "log_line \<Rightarrow> bool"
  assumes S: "\<And>i x v d. S (LogIteration i x v d) = (\<bar>x\<bar> < 2 ^ 53)"
  shows "n = MAX_ITERATIONS - i \<Longrightarrow> \<bar>x\<bar> < 2 ^ 53 \<Longrightarrow> (\<forall>l\<in>set out. S l) \<Longrightarrow>
         solve_loop eq i x x out = (out', r) \<Longrightarrow>
         (\<forall>l\<in>set out'. S l) \<or> r = Inl NumberTooLarge"
proof (induction n arbitrary: i x out)
  case 0
  then have "\<not> i < MAX_ITERATIONS" by simp
  with 0 have "out' = out" by (simp add: solve_loop_done)
  with 0 show ?case by simp
next
  case (Suc n)
  then have i: "i < MAX_ITERATIONS" by simp
  show ?case
  proof (cases "computeDerivValue eq x = 0")
    case True
    with Suc.prems(4) i have "out' = out" by (simp add: solve_loop_div0)
    with Suc.prems(3) show ?thesis by simp
  next
    case False
    let ?x' = "spec_next eq x"
    let ?out' = "out @ [LogIteration (i + 1) ?x' (computeValue eq x) (computeDerivValue eq x)]"
    have step: "solve_loop eq i x x out =
        (if 2 ^ 53 \<le> \<bar>?x'\<bar> then (?out', Inl NumberTooLarge)
         else if ?x' = x then (?out', Inr ?x')
         else solve_loop eq (i + 1) ?x' ?x' ?out')"
      using solve_loop_step [OF i False Suc.prems(2)] by (simp add: Let_def)
    show ?thesis
    proof (cases "2 ^ 53 \<le> \<bar>?x'\<bar>")
      case True
      with step Suc.prems(4) show ?thesis by simp
    next
      case small: False
      then have all: "\<forall>l\<in>set ?out'. S l" using Suc.prems(3) by (simp add: S)
      show ?thesis
      proof (cases "?x' = x")
        case True
        with step small Suc.prems(4) have "out' = ?out'" by simp
        with all show ?thesis by simp
      next
        case False
        with step small Suc.prems(4)
        have rec: "solve_loop eq (Suc i) ?x' ?x' ?out' = (out', r)" by simp
        have "n = MAX_ITERATIONS - Suc i" using Suc.prems(1) by simp
        from Suc.IH [OF this _ all rec] small show ?thesis by simp
      qed
    qed
  qed
qed


text \<open>
  The run of \<open>solve\<close> against the specification's iteration: line \<open>k + 1\<close> shows the
  iterate \<open>k + 1\<close> with the value and the derivative at the iterate \<open>k\<close>, and a text
  that is returned is that of the last iterate printed.
\<close>

lemma solve_newton:
  assumes "solve eq = (out, r)"
  shows "length out \<le> 32 \<and>
     (\<forall>k<length out. out ! k =
        LogIteration (k + 1) (spec_iterate eq (k + 1))
          (a eq * spec_iterate eq k ^ 2 + b eq * spec_iterate eq k + c eq)
          (2 * a eq * spec_iterate eq k + b eq)) \<and>
     (\<forall>s. r = Inr s \<longrightarrow> 1 \<le> length out \<and> s = toString (spec_iterate eq (length out)))"
proof -
  from solve_split [OF assms] obtain r0
    where run: "solve_loop eq 0 0 0 [] = (out, r0)" and r: "r = map_sum id toString r0"
    by blast
  define L where "L = (\<lambda>k. LogIteration (k + 1) (spec_iterate eq (k + 1))
      (computeValue eq (spec_iterate eq k)) (computeDerivValue eq (spec_iterate eq k)))"
  have "length out \<le> max 0 MAX_ITERATIONS \<and> 0 \<le> length out \<and> (\<forall>k<length out. out ! k = L k) \<and>
        (\<forall>y. r0 = Inr y \<longrightarrow>
           y = spec_iterate eq (length out) \<and> (0 < MAX_ITERATIONS \<longrightarrow> 0 < length out))"
    by (rule solve_loop_newton [where L = L and n = "MAX_ITERATIONS - 0", OF _ refl _ _ _ _ run])
       (simp_all add: L_def spec_iterate_0)
  then have len: "length out \<le> 32" and lines: "\<forall>k<length out. out ! k = L k"
    and res: "\<forall>y. r0 = Inr y \<longrightarrow> y = spec_iterate eq (length out) \<and> 1 \<le> length out"
    by (simp_all add: MAX_ITERATIONS_def Suc_le_eq)
  have "\<forall>s. r = Inr s \<longrightarrow> 1 \<le> length out \<and> s = toString (spec_iterate eq (length out))"
    using res r by (cases r0) auto
  then show ?thesis
    using len lines
    by (simp add: L_def computeValue_spec computeDerivValue_def)
qed

lemma solve_line_iterate:
  assumes "solve eq = (out, r)" "k < length out" "out ! k = LogIteration i x v d"
  shows "x = spec_iterate eq (Suc k)"
proof -
  from solve_newton [OF assms(1)] assms(2)
  have "out ! k = LogIteration (k + 1) (spec_iterate eq (k + 1))
          (a eq * spec_iterate eq k ^ 2 + b eq * spec_iterate eq k + c eq)
          (2 * a eq * spec_iterate eq k + b eq)"
    by blast
  with assms(3) show ?thesis by auto
qed

section \<open>Concrete runs\<close>

text \<open>
  Runs of \<open>solve\<close> on equations that the constructor builds, computed by rewriting
  with the definitions: the worked example of the specification (reserves of
  1000000 each, 10000 offered); a deposit whose iteration uses all 32 rounds
  (\<open>offerUser = 66567332\<close>, \<open>offerPool = 100001\<close>, \<open>askPool = 1000\<close>); a deposit that
  converges to the same number (\<open>offerUser = 7557904\<close>, reserves of \<open>10^12\<close> each); a
  deposit of 10000 into reserves of 1 each; and a deposit of \<open>4 * 10^19\<close> into reserves
  of \<open>10^21\<close> each (40 tokens into 1000, at 18 decimals).
\<close>

lemmas run_eval =
  solve_def solve_loop.simps MAX_ITERATIONS_def computeValue_def computeDerivValue_def
  bn_div_def toNumber_def toString_def Let_def

lemma run_worked_example:
  "solve \<lparr>a = 1000000, b = 1996970000000, c = - 10000000000000000\<rparr> =
     ([LogIteration 1 5007 (- 10000000000000000) 1996970000000,
       LogIteration 2 4996 23898839000000 2006984000000,
       LogIteration 3 4996 1822136000000 2006962000000],
      Inr ''4996'')"
  by (simp add: run_eval)

lemma run_exhausted:
  "solve \<lparr>a = 1000, b = 1, c = - 6656799767332000\<rparr> =
     ([LogIteration 1 6656799767332000 (- 6656799767332000) 1,
      LogIteration 2 3328399883666001 44312983142351369334398224000000000 13313599534664000001,
      LogIteration 3 1664199941833001 11078245785587848987070923448335001 6656799767332002001,
      LogIteration 4 832099970916501 2769561446396963906807172840502001 3328399883666002001,
      LogIteration 5 416049985458251 692390361599241804225214286585501 1664199941833002001,
      LogIteration 6 208024992729126 173097590399810862321714197127251 832099970916502001,
      LogIteration 7 104012496364564 43274397599952918716833949273126 416049985458252001,
      LogIteration 8 52006248182283 10818599399988432763607639128564 208024992729128001,
      LogIteration 9 26003124091142 2704649849997207236801572939283 104012496364566001,
      LogIteration 10 13001562045572 676162462499322832726220923142 52006248182284001,
      LogIteration 11 6500781022787 169040615624851725206601897572 26003124091144001,
      LogIteration 12 3250390511395 42260153906220943514261059787 13001562045574001,
      LogIteration 13 1625195255699 10565038476559996075469204395 6500781022790001,
      LogIteration 14 812597627852 2641259619139882817406524699 3250390511398001,
      LogIteration 15 406298813931 660314904784041498964199852 1625195255704001,
      LogIteration 16 203149406974 165078726195080966204242931 812597627862001,
      LogIteration 17 101574703504 41269681547231283218750974 406298813948001,
      LogIteration 18 50787351785 10317420385268811685387504 203149407008001,
      LogIteration 19 25393675959 2579355094676593706244785 101574703570001,
      LogIteration 20 12696838111 644838772053920196024959 50787351918001,
      LogIteration 21 6348419318 161209691360154977827111 25393676222001,
      LogIteration 22 3174210184 40302421180362166211318 12696838636001,
      LogIteration 23 1587106141 10075603635412720734184 6348420368001,
      LogIteration 24 793555168 2518899246001731655141 3174212282001,
      LogIteration 25 396781779 629723147860534447168 1587110336001,
      LogIteration 26 198399278 157429123347034290779 793563558001,
      LogIteration 27 99216416 39355616711352351278 396798556001,
      LogIteration 28 49641755 9837240404216940416 198432832001,
      LogIteration 29 24887926 2457647039762334755 99283510001,
      LogIteration 30 12577699 612752060839031926 49775852001,
      LogIteration 31 6553477 151541712379846699 25155398001,
      LogIteration 32 3784622 36291261028750477 13106954001],
      Inr ''3784622'')"
  by (simp add: run_eval)

lemma run_converged:
  "solve \<lparr>a = 1000000000000, b = 1996999977326288000000000,
          c = - 7557904000000000000000000000000\<rparr> =
     ([LogIteration 1 3784628 (- 7557904000000000000000000000000) 1996999977326288000000000,
       LogIteration 2 3784622 12353597533084864000000000 1997007546582288000000000,
       LogIteration 3 3784622 371552253627136000000000 1997007546570288000000000],
      Inr ''3784622'')"
  by (simp add: run_eval)


lemma run_18_decimals:
  "solve \<lparr>a = 1000000000000000000000, b = 1996880000000000000000000000000000000000000,
          c = - 40000000000000000000000000000000000000000000000000000000000000\<rparr> =
     ([LogIteration 1 20031248748046953247
         (- 40000000000000000000000000000000000000000000000000000000000000)
         1996880000000000000000000000000000000000000],
      Inl NumberTooLarge)"
  by (simp add: run_eval)


lemma equation_exhausted:
  "new_Equation 66567332 100001 0 1000 = Inr \<lparr>a = 1000, b = 1, c = - 6656799767332000\<rparr>"
  by (simp add: new_Equation_def bn_div_def)

lemma equation_converged:
  "new_Equation 7557904 1000000000000 0 1000000000000 =
     Inr \<lparr>a = 1000000000000, b = 1996999977326288000000000,
           c = - 7557904000000000000000000000000\<rparr>"
  by (simp add: new_Equation_def bn_div_def)


lemma equation_18_decimals:
  "new_Equation 40000000000000000000 1000000000000000000000 0 1000000000000000000000 =
     Inr \<lparr>a = 1000000000000000000000, b = 1996880000000000000000000000000000000000000,
           c = - 40000000000000000000000000000000000000000000000000000000000000\<rparr>"
  by (simp add: new_Equation_def bn_div_def)

section \<open>Nothing deposited\<close>

text \<open>
  Claim C7. For positive reserves and \<open>offerUser = askUser = 0\<close> the solver returns the
  root 0: \<open>c = 0\<close> and \<open>b > 0\<close>, so the first step leaves \<open>x = 0\<close> and the loop stops
  after one line.
\<close>

theorem solve_nothing_deposited:
  assumes "0 < offerPool" "0 < askPool"
  shows "\<exists>eq. new_Equation 0 offerPool 0 askPool = Inr eq \<and>
              fst (solve eq) = [LogIteration 1 0 0 (b eq)] \<and> snd (solve eq) = Inr ''0''"
proof -
  define B where "B = 2 * offerPool * askPool - (askPool * offerPool * 30) div 10000"
  define eq where "eq = \<lparr> a = askPool, b = B, c = 0 \<rparr>"
  have new: "new_Equation 0 offerPool 0 askPool = Inr eq"
    using new_Equation_nonneg [of 0 offerPool 0 askPool] assms
    by (simp add: eq_def B_def)
  have "0 < askPool * offerPool" using assms by simp
  then have "0 < 2 * (askPool * offerPool) - (askPool * offerPool * 30) div 10000"
    by linarith
  then have B: "0 < B" by (simp add: B_def mult.commute mult.left_commute)
  have d: "computeDerivValue eq 0 \<noteq> 0" using B by (simp add: computeDerivValue_def eq_def)
  have n: "spec_next eq 0 = 0"
    by (simp add: spec_next_def spec_trunc_div_def eq_def)
  have "solve_loop eq 0 0 0 [] = ([LogIteration 1 0 0 B], Inr 0)"
    using solve_loop_step [of 0 eq 0 "[]"] d n
    by (simp add: MAX_ITERATIONS_def Let_def computeValue_def computeDerivValue_def eq_def)
  then have "solve eq = ([LogIteration 1 0 0 (b eq)], Inr ''0'')"
    by (simp add: solve_def toString_0 eq_def)
  with new show ?thesis by simp
qed

theorem solve_nothing_deposited_witness:
  "\<exists>eq. new_Equation 0 1000000 0 1000000 = Inr eq \<and>
        fst (solve eq) = [LogIteration 1 0 0 (b eq)] \<and> snd (solve eq) = Inr ''0''"
  using solve_nothing_deposited [of 1000000 1000000] by simp

section \<open>A single-asset deposit\<close>






section \<open>The iteration and its bound\<close>

text \<open>
  Claim C2. The solver runs the Newton iteration of the specification from \<open>x\<^sub>0 = 0\<close>:
  it prints at most 32 lines, line \<open>k + 1\<close> shows \<open>x\<^sub>k\<^sub>+\<^sub>1 = x\<^sub>k - value div derivative\<close>
  (truncated) with \<open>value = a*x\<^sub>k\<^sup>2 + b*x\<^sub>k + c\<close> and \<open>derivative = 2*a*x\<^sub>k + b\<close>, a
  returned text is that of the last iterate computed, and some equation uses all 32
  iterations.
\<close>

theorem solve_newton_iteration:
  assumes "solve eq = (out, r)"
  shows "spec_iterate eq 0 = 0 \<and> length out \<le> 32 \<and>
     (\<forall>k<length out. out ! k =
        LogIteration (k + 1) (spec_iterate eq (k + 1))
          (a eq * spec_iterate eq k ^ 2 + b eq * spec_iterate eq k + c eq)
          (2 * a eq * spec_iterate eq k + b eq)) \<and>
     (\<forall>s. r = Inr s \<longrightarrow> 1 \<le> length out \<and> s = toString (spec_iterate eq (length out))) \<and>
     (\<exists>eq'. length (fst (solve eq')) = 32)"
proof -
  have "length (fst (solve \<lparr>a = 1000, b = 1, c = - 6656799767332000\<rparr>)) = 32"
    by (simp add: run_exhausted)
  then have "\<exists>eq'. length (fst (solve eq')) = 32" ..
  with solve_newton [OF assms] show ?thesis
    by (simp add: spec_iterate_0)
qed

theorem solve_newton_iteration_witness:
  "solve \<lparr>a = 1000000, b = 1996970000000, c = - 10000000000000000\<rparr> =
     ([LogIteration 1 5007 (- 10000000000000000) 1996970000000,
       LogIteration 2 4996 23898839000000 2006984000000,
       LogIteration 3 4996 1822136000000 2006962000000],
      Inr ''4996'') \<and>
   toString (spec_iterate \<lparr>a = 1000000, b = 1996970000000, c = - 10000000000000000\<rparr> 3) = ''4996''"
proof -
  let ?out = "[LogIteration 1 5007 (- 10000000000000000) 1996970000000,
       LogIteration 2 4996 23898839000000 2006984000000,
       LogIteration 3 4996 1822136000000 2006962000000]"
  let ?eq = "\<lparr>a = 1000000, b = 1996970000000, c = - 10000000000000000\<rparr>"
  have len: "length ?out = 3" by simp
  from solve_newton_iteration [OF run_worked_example]
  have "''4996'' = toString (spec_iterate ?eq (length ?out))" by blast
  then have "toString (spec_iterate ?eq 3) = ''4996''" unfolding len by (rule sym)
  with run_worked_example show ?thesis by (intro conjI)
qed

section \<open>What the result says about convergence\<close>

lemma exhausted_iterates:
  "spec_iterate \<lparr>a = 1000, b = 1, c = - 6656799767332000\<rparr> 31 = 6553477"
  "spec_iterate \<lparr>a = 1000, b = 1, c = - 6656799767332000\<rparr> 32 = 3784622"
  using solve_line_iterate [OF run_exhausted, of 30] solve_line_iterate [OF run_exhausted, of 31]
  by simp_all

lemma converged_iterates:
  "spec_iterate \<lparr>a = 1000000000000, b = 1996999977326288000000000,
          c = - 7557904000000000000000000000000\<rparr> 2 = 3784622"
  "spec_iterate \<lparr>a = 1000000000000, b = 1996999977326288000000000,
          c = - 7557904000000000000000000000000\<rparr> 3 = 3784622"
  using solve_line_iterate [OF run_converged, of 1] solve_line_iterate [OF run_converged, of 2]
  by (simp_all add: eval_nat_numeral)

text \<open>
  Claim C9 says that the result of the solver tells a converged run from one that has
  used up its 32 iterations. The function returns the decimal text of \<open>x\<close> and nothing
  else. The deposit of 66567332 into reserves of 100001 and 1000 uses all 32
  iterations and ends on a 32nd iterate that differs from the 31st; the deposit of
  7557904 into reserves of \<open>10^12\<close> each converges at its third iteration. Both calls
  return \<open>''3784622''\<close>.
\<close>

theorem solve_result_hides_exhaustion:
  "new_Equation 66567332 100001 0 1000 = Inr \<lparr>a = 1000, b = 1, c = - 6656799767332000\<rparr> \<and>
   snd (solve \<lparr>a = 1000, b = 1, c = - 6656799767332000\<rparr>) = Inr ''3784622'' \<and>
   length (fst (solve \<lparr>a = 1000, b = 1, c = - 6656799767332000\<rparr>)) = 32 \<and>
   spec_iterate \<lparr>a = 1000, b = 1, c = - 6656799767332000\<rparr> 32 \<noteq>
     spec_iterate \<lparr>a = 1000, b = 1, c = - 6656799767332000\<rparr> 31 \<and>
   new_Equation 7557904 1000000000000 0 1000000000000 =
     Inr \<lparr>a = 1000000000000, b = 1996999977326288000000000,
           c = - 7557904000000000000000000000000\<rparr> \<and>
   snd (solve \<lparr>a = 1000000000000, b = 1996999977326288000000000,
           c = - 7557904000000000000000000000000\<rparr>) = Inr ''3784622'' \<and>
   length (fst (solve \<lparr>a = 1000000000000, b = 1996999977326288000000000,
           c = - 7557904000000000000000000000000\<rparr>)) = 3 \<and>
   spec_iterate \<lparr>a = 1000000000000, b = 1996999977326288000000000,
           c = - 7557904000000000000000000000000\<rparr> 3 =
     spec_iterate \<lparr>a = 1000000000000, b = 1996999977326288000000000,
           c = - 7557904000000000000000000000000\<rparr> 2"
  by (simp add: equation_exhausted equation_converged run_exhausted run_converged
        exhausted_iterates converged_iterates)

text \<open>
  Claim C9, as the code has it. When the solver has used all 32 iterations and the
  32nd iterate printed differs from the 31st, what it returns is the decimal text of
  that 32nd iterate of the specification's iteration, with no mark of the exhaustion:
  the same form as the result of a converged run. Only the lines printed show it.
\<close>

theorem solve_exhausted_result:
  assumes "solve eq = (out, Inr s)" "length out = 32"
      and "out ! 30 = LogIteration i1 x1 v1 d1" "out ! 31 = LogIteration i2 x2 v2 d2"
      and "x2 \<noteq> x1"
  shows "s = toString x2 \<and> x2 = spec_iterate eq 32 \<and> spec_iterate eq 32 \<noteq> spec_iterate eq 31"
proof -
  have x1: "x1 = spec_iterate eq 31"
    using solve_line_iterate [OF assms(1) _ assms(3)] assms(2) by simp
  have x2: "x2 = spec_iterate eq 32"
    using solve_line_iterate [OF assms(1) _ assms(4)] assms(2) by simp
  from solve_newton [OF assms(1)] have "s = toString (spec_iterate eq (length out))" by blast
  with x1 x2 assms(2,5) show ?thesis by simp
qed

theorem solve_exhausted_result_witness:
  "snd (solve \<lparr>a = 1000, b = 1, c = - 6656799767332000\<rparr>) = Inr ''3784622'' \<and>
   length (fst (solve \<lparr>a = 1000, b = 1, c = - 6656799767332000\<rparr>)) = 32 \<and>
   ''3784622'' = toString 3784622 \<and>
   3784622 = spec_iterate \<lparr>a = 1000, b = 1, c = - 6656799767332000\<rparr> 32 \<and>
   spec_iterate \<lparr>a = 1000, b = 1, c = - 6656799767332000\<rparr> 32 \<noteq>
     spec_iterate \<lparr>a = 1000, b = 1, c = - 6656799767332000\<rparr> 31"
proof -
  let ?out = "[LogIteration 1 6656799767332000 (- 6656799767332000) 1,
      LogIteration 2 3328399883666001 44312983142351369334398224000000000 13313599534664000001,
      LogIteration 3 1664199941833001 11078245785587848987070923448335001 6656799767332002001,
      LogIteration 4 832099970916501 2769561446396963906807172840502001 3328399883666002001,
      LogIteration 5 416049985458251 692390361599241804225214286585501 1664199941833002001,
      LogIteration 6 208024992729126 173097590399810862321714197127251 832099970916502001,
      LogIteration 7 104012496364564 43274397599952918716833949273126 416049985458252001,
      LogIteration 8 52006248182283 10818599399988432763607639128564 208024992729128001,
      LogIteration 9 26003124091142 2704649849997207236801572939283 104012496364566001,
      LogIteration 10 13001562045572 676162462499322832726220923142 52006248182284001,
      LogIteration 11 6500781022787 169040615624851725206601897572 26003124091144001,
      LogIteration 12 3250390511395 42260153906220943514261059787 13001562045574001,
      LogIteration 13 1625195255699 10565038476559996075469204395 6500781022790001,
      LogIteration 14 812597627852 2641259619139882817406524699 3250390511398001,
      LogIteration 15 406298813931 660314904784041498964199852 1625195255704001,
      LogIteration 16 203149406974 165078726195080966204242931 812597627862001,
      LogIteration 17 101574703504 41269681547231283218750974 406298813948001,
      LogIteration 18 50787351785 10317420385268811685387504 203149407008001,
      LogIteration 19 25393675959 2579355094676593706244785 101574703570001,
      LogIteration 20 12696838111 644838772053920196024959 50787351918001,
      LogIteration 21 6348419318 161209691360154977827111 25393676222001,
      LogIteration 22 3174210184 40302421180362166211318 12696838636001,
      LogIteration 23 1587106141 10075603635412720734184 6348420368001,
      LogIteration 24 793555168 2518899246001731655141 3174212282001,
      LogIteration 25 396781779 629723147860534447168 1587110336001,
      LogIteration 26 198399278 157429123347034290779 793563558001,
      LogIteration 27 99216416 39355616711352351278 396798556001,
      LogIteration 28 49641755 9837240404216940416 198432832001,
      LogIteration 29 24887926 2457647039762334755 99283510001,
      LogIteration 30 12577699 612752060839031926 49775852001,
      LogIteration 31 6553477 151541712379846699 25155398001,
      LogIteration 32 3784622 36291261028750477 13106954001]"
  have "''3784622'' = toString 3784622 \<and>
        3784622 = spec_iterate \<lparr>a = 1000, b = 1, c = - 6656799767332000\<rparr> 32 \<and>
        spec_iterate \<lparr>a = 1000, b = 1, c = - 6656799767332000\<rparr> 32 \<noteq>
          spec_iterate \<lparr>a = 1000, b = 1, c = - 6656799767332000\<rparr> 31"
    by (rule solve_exhausted_result [OF run_exhausted,
          of 31 6553477 151541712379846699 25155398001 32 3784622 36291261028750477 13106954001])
       simp_all
  then show ?thesis by (simp add: run_exhausted)
qed

section \<open>The comparison of the iterates\<close>

text \<open>
  The loop compares \<^verbatim>\<open>x.toNumber() == xPrev.toNumber()\<close>. Below \<open>2^53\<close> the number
  is the integer itself and the comparison is that of the integers; from \<open>2^53\<close> on
  \<^verbatim>\<open>toNumber\<close> throws.
\<close>

lemma iterates_18_decimals:
  "spec_iterate \<lparr>a = 1000000000000000000000, b = 1996880000000000000000000000000000000000000,
          c = - 40000000000000000000000000000000000000000000000000000000000000\<rparr> 4 = 19834242824593889374"
  "spec_iterate \<lparr>a = 1000000000000000000000, b = 1996880000000000000000000000000000000000000,
          c = - 40000000000000000000000000000000000000000000000000000000000000\<rparr> 5 = 19834242824593889374"
proof -
  let ?eq = "\<lparr>a = 1000000000000000000000, b = 1996880000000000000000000000000000000000000,
          c = - 40000000000000000000000000000000000000000000000000000000000000\<rparr>"
  have s1: "spec_next ?eq 0 = 20031248748046953247"
    by (simp add: spec_next_def spec_trunc_div_def)
  have s2: "spec_next ?eq 20031248748046953247 = 19834261878314808499"
    by (simp add: spec_next_def spec_trunc_div_def)
  have s3: "spec_next ?eq 19834261878314808499 = 19834242824594067639"
    by (simp add: spec_next_def spec_trunc_div_def)
  have s4: "spec_next ?eq 19834242824594067639 = 19834242824593889374"
    by (simp add: spec_next_def spec_trunc_div_def)
  have s5: "spec_next ?eq 19834242824593889374 = 19834242824593889374"
    by (simp add: spec_next_def spec_trunc_div_def)
  have n4: "(4::nat) = Suc (Suc (Suc (Suc 0)))" by simp
  have n5: "(5::nat) = Suc 4" by simp
  show i4: "spec_iterate ?eq 4 = 19834242824593889374"
    unfolding n4 by (simp only: spec_iterate_Suc spec_iterate_0 s1 s2 s3 s4)
  show "spec_iterate ?eq 5 = 19834242824593889374"
    unfolding n5 by (simp only: spec_iterate_Suc i4 s5)
qed

text \<open>
  Claim C3 says that the solver stops as soon as the new iterate equals the previous
  one as a full-precision integer, or after 32 iterations, and that the test never
  compares a narrowed form of the iterates. For a deposit of \<open>4 * 10^19\<close> into reserves
  of \<open>10^21\<close> each the first iterate is 20031248748046953247, above \<open>2^53\<close>: the
  comparison throws and the run ends there, after one line, with no result. The
  iteration itself becomes stable on full-precision integers at its fifth iterate,
  19834242824593889374.
\<close>

theorem solve_throws_on_large_iterate:
  "new_Equation 40000000000000000000 1000000000000000000000 0 1000000000000000000000 =
     Inr \<lparr>a = 1000000000000000000000, b = 1996880000000000000000000000000000000000000,
          c = - 40000000000000000000000000000000000000000000000000000000000000\<rparr> \<and>
   solve \<lparr>a = 1000000000000000000000, b = 1996880000000000000000000000000000000000000,
          c = - 40000000000000000000000000000000000000000000000000000000000000\<rparr> =
     ([LogIteration 1 20031248748046953247
         (- 40000000000000000000000000000000000000000000000000000000000000)
         1996880000000000000000000000000000000000000],
      Inl NumberTooLarge) \<and>
   spec_iterate \<lparr>a = 1000000000000000000000, b = 1996880000000000000000000000000000000000000,
          c = - 40000000000000000000000000000000000000000000000000000000000000\<rparr> 4 = 19834242824593889374 \<and>
   spec_iterate \<lparr>a = 1000000000000000000000, b = 1996880000000000000000000000000000000000000,
          c = - 40000000000000000000000000000000000000000000000000000000000000\<rparr> 5 = 19834242824593889374"
  by (simp only: equation_18_decimals run_18_decimals iterates_18_decimals simp_thms)

text \<open>
  A second deposit of that size, with reserves of \<open>10^21 + 1\<close> each: \<open>b\<close> is odd there, so
  the derivative \<open>2 * a * x + b\<close> is zero at no integer.
\<close>

lemma equation_odd_derivative:
  "new_Equation 40000000000000000333 1000000000000000000001 0 1000000000000000000001 =
     Inr \<lparr>a = 1000000000000000000001, b = 1996880000000000000002994880000000000000001,
           c = - 40000000000000000333080000000000000000666040000000000000000333\<rparr>"
  by (simp add: new_Equation_def bn_div_def)

lemma run_odd_derivative:
  "solve \<lparr>a = 1000000000000000000001, b = 1996880000000000000002994880000000000000001,
           c = - 40000000000000000333080000000000000000666040000000000000000333\<rparr> =
     ([LogIteration 1 20031248748046953413
         (- 40000000000000000333080000000000000000666040000000000000000333)
         1996880000000000000002994880000000000000001],
      Inl NumberTooLarge)"
  by (simp add: run_eval)

lemma odd_derivative_nonzero:
  "computeDerivValue \<lparr>a = 1000000000000000000001,
      b = 1996880000000000000002994880000000000000001,
      c = - 40000000000000000333080000000000000000666040000000000000000333\<rparr> x \<noteq> 0"
proof -
  have "odd (2 * 1000000000000000000001 * x + (1996880000000000000002994880000000000000001 :: int))"
    by simp
  then have "2 * 1000000000000000000001 * x + (1996880000000000000002994880000000000000001 :: int) \<noteq> 0"
    by (metis even_zero)
  then show ?thesis by (simp add: computeDerivValue_def)
qed

lemma solve_large_line:
  assumes "LogIteration i x v d \<in> set (fst (solve eq))" "2 ^ 53 - 1 < \<bar>x\<bar>"
  shows "snd (solve eq) = Inl NumberTooLarge"
proof -
  obtain out r where run: "solve_loop eq 0 0 0 [] = (out, r)"
    by (cases "solve_loop eq 0 0 0 []")
  define S where "S = (\<lambda>l. case l of LogIteration i x v d \<Rightarrow> \<bar>x\<bar> < 2 ^ 53 | _ \<Rightarrow> True)"
  have "(\<forall>l\<in>set out. S l) \<or> r = Inl NumberTooLarge"
    by (rule solve_loop_large [where S = S and n = "MAX_ITERATIONS - 0", OF _ refl _ _ run])
       (simp_all add: S_def)
  moreover have "fst (solve eq) = out" "snd (solve eq) = map_sum id toString r"
    using run by (simp_all add: solve_def split: sum.splits)
  moreover have "\<not> S (LogIteration i x v d)" using assms(2) by (simp add: S_def)
  ultimately show ?thesis using assms(1) by auto
qed

text \<open>
  Claim C10. The solver is not total: there are positive amounts whose equation has a
  derivative that is zero nowhere, and on which the solver ends with the exception of
  \<^verbatim>\<open>toNumber\<close> instead of a result; and whenever an iterate that the loop computes
  (each one is printed) exceeds \<open>2^53 - 1\<close> in magnitude, the run ends with that
  exception.
\<close>

theorem solve_fails_above_53_bits:
  "(\<exists>offerUser offerPool askPool eq.
      0 < offerUser \<and> 0 < offerPool \<and> 0 < askPool \<and>
      new_Equation offerUser offerPool 0 askPool = Inr eq \<and>
      (\<forall>x. computeDerivValue eq x \<noteq> 0) \<and>
      snd (solve eq) = Inl NumberTooLarge) \<and>
   (\<forall>eq i x v d. LogIteration i x v d \<in> set (fst (solve eq)) \<longrightarrow> 2 ^ 53 - 1 < \<bar>x\<bar> \<longrightarrow>
      snd (solve eq) = Inl NumberTooLarge)"
proof (intro conjI allI impI)
  show "\<exists>offerUser offerPool askPool eq.
      0 < offerUser \<and> 0 < offerPool \<and> 0 < askPool \<and>
      new_Equation offerUser offerPool 0 askPool = Inr eq \<and>
      (\<forall>x. computeDerivValue eq x \<noteq> 0) \<and>
      snd (solve eq) = Inl NumberTooLarge"
    using equation_odd_derivative odd_derivative_nonzero run_odd_derivative
    by (intro exI [of _ 40000000000000000333] exI [of _ 1000000000000000000001] exI conjI allI)
       (simp_all only: snd_conv, simp_all)
next
  fix eq i x v d
  assume "LogIteration i x v d \<in> set (fst (solve eq))" "2 ^ 53 - 1 < \<bar>x\<bar>"
  then show "snd (solve eq) = Inl NumberTooLarge" by (rule solve_large_line)
qed

theorem solve_fails_above_53_bits_witness:
  "LogIteration 1 20031248748046953247
       (- 40000000000000000000000000000000000000000000000000000000000000)
       1996880000000000000000000000000000000000000
     \<in> set (fst (solve \<lparr>a = 1000000000000000000000,
            b = 1996880000000000000000000000000000000000000,
            c = - 40000000000000000000000000000000000000000000000000000000000000\<rparr>)) \<and>
   (2 ^ 53 - 1 < \<bar>20031248748046953247 :: int\<bar>) \<and>
   snd (solve \<lparr>a = 1000000000000000000000,
            b = 1996880000000000000000000000000000000000000,
            c = - 40000000000000000000000000000000000000000000000000000000000000\<rparr>)
     = Inl NumberTooLarge"
proof -
  let ?eq = "\<lparr>a = 1000000000000000000000,
            b = 1996880000000000000000000000000000000000000,
            c = - 40000000000000000000000000000000000000000000000000000000000000\<rparr>"
  let ?l = "LogIteration 1 20031248748046953247
       (- 40000000000000000000000000000000000000000000000000000000000000)
       1996880000000000000000000000000000000000000"
  have m: "?l \<in> set (fst (solve ?eq))" by (simp add: run_18_decimals)
  have big: "2 ^ 53 - 1 < \<bar>20031248748046953247 :: int\<bar>" by simp
  from solve_fails_above_53_bits
  have "\<forall>eq i x v d. LogIteration i x v d \<in> set (fst (solve eq)) \<longrightarrow> 2 ^ 53 - 1 < \<bar>x\<bar> \<longrightarrow>
      snd (solve eq) = Inl NumberTooLarge"
    by (rule conjunct2)
  with m big have "snd (solve ?eq) = Inl NumberTooLarge" by blast
  with m big show ?thesis by (intro conjI)
qed

end
